theory Spec2Isabelle
  imports Complex_Main "HOL-Library.Word" "HOL-Library.Sublist"
begin

section \<open>The canvas and its snapshot history\<close>

text \<open>
  The component \<open>Home\<close> keeps the drawing in a canvas element reached through
  \<open>canvasRef\<close> and two React state lists of data URLs, \<open>undoStack\<close> and
  \<open>redoStack\<close> (most recent last). A raster is identified with the data URL that
  \<open>canvas.toDataURL()\<close> returns for it (PNG, lossless), so drawing a decoded snapshot
  back gives the same raster. \<open>canvasRef.current\<close> is \<open>null\<close> while no canvas
  element is mounted; \<open>node\<close> identifies the DOM element and \<open>ctx2d\<close> says whether
  \<open>getContext('2d')\<close> yields a context.

  A handler runs to completion on the state of the latest render. \<open>loadState\<close> does
  not repaint: it creates an \<open>Image\<close>, sets its \<open>onload\<close> and its \<open>src\<close>, and
  returns. The images whose \<open>onload\<close> has not fired yet are the list \<open>decoding\<close>;
  each remembers its data URL and the canvas element that its \<open>onload\<close> closure
  captured.
\<close>

record canvas_el =
  node :: nat
  pixels :: string
  ctx2d :: bool

record image_load =
  src :: string
  target :: nat

record editor =
  canvasRef :: "canvas_el option"
  undoStack :: "string list"
  redoStack :: "string list"
  prompt :: string
  generatedImage :: "string option"
  isLoading :: bool
  showErrorModal :: bool
  errorMessage :: string
  hasKey :: "bool option"
  decoding :: "image_load list"

definition saveState :: "editor \<Rightarrow> editor" where
  "saveState s =
     (case canvasRef s of
        None \<Rightarrow> s
      | Some canvas \<Rightarrow>
          (let state = pixels canvas
           in s\<lparr>undoStack := undoStack s @ [state], redoStack := []\<rparr>))"

definition loadState :: "string \<Rightarrow> editor \<Rightarrow> editor" where
  "loadState dataUrl s =
     (case canvasRef s of
        None \<Rightarrow> s
      | Some canvas \<Rightarrow>
          if \<not> ctx2d canvas then s
          else s\<lparr>decoding := decoding s @ [\<lparr>src = dataUrl, target = node canvas\<rparr>]\<rparr>)"

text \<open>
  The \<open>onload\<close> handler of the \<open>i\<close>-th image that is still decoding: it clears
  the canvas element it captured and draws the image on it. That changes the mounted
  canvas only if it is still that element. An image that is not decoding has no
  \<open>onload\<close> to fire.
\<close>

definition img_onload :: "nat \<Rightarrow> editor \<Rightarrow> editor" where
  "img_onload i s =
     (if i < length (decoding s) then
        (let img = decoding s ! i;
             s1 = s\<lparr>decoding := take i (decoding s) @ drop (Suc i) (decoding s)\<rparr>
         in case canvasRef s1 of
              None \<Rightarrow> s1
            | Some canvas \<Rightarrow>
                if node canvas = target img
                then s1\<lparr>canvasRef := Some (canvas\<lparr>pixels := src img\<rparr>)\<rparr>
                else s1)
      else s)"

definition undo :: "editor \<Rightarrow> editor" where
  "undo s =
     (if undoStack s = [] then s
      else case canvasRef s of
        None \<Rightarrow> s
      | Some canvas \<Rightarrow>
          (let currentState = pixels canvas;
               previousState = last (undoStack s)
           in loadState previousState
                (s\<lparr>redoStack := redoStack s @ [currentState],
                   undoStack := butlast (undoStack s)\<rparr>)))"

definition redo :: "editor \<Rightarrow> editor" where
  "redo s =
     (if redoStack s = [] then s
      else case canvasRef s of
        None \<Rightarrow> s
      | Some canvas \<Rightarrow>
          (let currentState = pixels canvas;
               nextState = last (redoStack s)
           in loadState nextState
                (s\<lparr>undoStack := undoStack s @ [currentState],
                   redoStack := butlast (redoStack s)\<rparr>)))"

text \<open>
  A call of \<open>undo\<close> or \<open>redo\<close> followed by the \<open>onload\<close> of the oldest image
  still decoding, before any other handler runs. With nothing decoding beforehand, that
  image is the one the call started.
\<close>

definition undo_then_onload :: "editor \<Rightarrow> editor" where
  "undo_then_onload s = img_onload 0 (undo s)"

definition redo_then_onload :: "editor \<Rightarrow> editor" where
  "redo_then_onload s = img_onload 0 (redo s)"

text \<open>
  The pixel-changing part of a mutating handler (\<open>draw\<close> after \<open>startDrawing\<close>, the
  fill of \<open>clearCanvas\<close>): it returns early when the canvas or its 2d context is
  missing and otherwise paints, which changes the raster by some function \<open>f\<close>.
\<close>

definition paint :: "(string \<Rightarrow> string) \<Rightarrow> editor \<Rightarrow> editor" where
  "paint f s =
     (case canvasRef s of
        None \<Rightarrow> s
      | Some canvas \<Rightarrow>
          if \<not> ctx2d canvas then s
          else s\<lparr>canvasRef := Some (canvas\<lparr>pixels := f (pixels canvas)\<rparr>)\<rparr>)"

text \<open>
  \<open>clearCanvas\<close>: snapshot first, then fill white (the raster \<open>blank\<close>) and drop
  the generated image. The background image ref it also clears is not part of the state
  modelled here.
\<close>

definition clearCanvas :: "string \<Rightarrow> editor \<Rightarrow> editor" where
  "clearCanvas blank s =
     (let s1 = saveState s
      in case canvasRef s1 of
           None \<Rightarrow> s1
         | Some canvas \<Rightarrow>
             if \<not> ctx2d canvas then s1
             else s1\<lparr>canvasRef := Some (canvas\<lparr>pixels := blank\<rparr>),
                     generatedImage := None\<rparr>)"

text \<open>A sequence of mutating operations, each preceded by its \<open>saveState\<close>.\<close>

fun run_edits :: "(string \<Rightarrow> string) list \<Rightarrow> editor \<Rightarrow> editor" where
  "run_edits [] s = s"
| "run_edits (f # fs) s = run_edits fs (paint f (saveState s))"

text \<open>The rasters a sequence of edits passes through, first to last.\<close>

fun trace :: "(string \<Rightarrow> string) list \<Rightarrow> string \<Rightarrow> string list" where
  "trace [] p = [p]"
| "trace (f # fs) p = p # trace fs (f p)"

section \<open>Transcript fragments and the prompt\<close>

text \<open>
  A \<open>LiveServerMessage\<close> may carry \<open>serverContent.inputTranscription.text\<close>; each
  of the three levels may be absent. The handler \<open>onmessage\<close> appends a non-empty
  fragment to the prompt through the updater passed to \<open>setPrompt\<close>, modelled by
  \<open>mergeFragment\<close>: \<open>prev.slice(-1)\<close> is the last character of the prompt as a string,
  the empty string for an empty prompt. The property \<open>text\<close> of the transcription is
  the field \<open>text_field\<close>.
\<close>

record transcription =
  text_field :: "string option"

record server_content =
  inputTranscription :: "transcription option"

record live_server_message =
  serverContent :: "server_content option"

definition mergeFragment :: "string \<Rightarrow> string \<Rightarrow> string" where
  "mergeFragment prev fragment =
     (let lastChar = (if prev = [] then [] else [last prev]);
          space = (if length prev > 0 \<and> lastChar \<noteq> '' '' then '' '' else [])
      in prev @ space @ fragment)"

definition onmessage :: "live_server_message \<Rightarrow> editor \<Rightarrow> editor" where
  "onmessage message s =
     (case serverContent message of
        None \<Rightarrow> s
      | Some content \<Rightarrow>
          (case inputTranscription content of
             None \<Rightarrow> s
           | Some transcription \<Rightarrow>
               (case text_field transcription of
                  None \<Rightarrow> s
                | Some fragment \<Rightarrow>
                    if fragment \<noteq> [] then s\<lparr>prompt := mergeFragment (prompt s) fragment\<rparr>
                    else s)))"

text \<open>
  The merge rule in the words of the specification (a separator unless the buffer is
  empty or ends with whitespace), for comparison with \<open>mergeFragment\<close>.
\<close>

definition is_whitespace :: "char \<Rightarrow> bool" where
  "is_whitespace c = (c \<in> set [CHR 0x09, CHR 0x0A, CHR 0x0B, CHR 0x0C, CHR 0x0D, CHR 0x20])"

definition mergeFragment_spec :: "string \<Rightarrow> string \<Rightarrow> string" where
  "mergeFragment_spec buffer fragment =
     (if buffer \<noteq> [] \<and> \<not> is_whitespace (last buffer) then buffer @ '' '' @ fragment
      else buffer @ fragment)"

section \<open>Audio frames\<close>

text \<open>
  \<open>onaudioprocess\<close> stores \<open>inputData[i] * 32768\<close> into an \<open>Int16Array\<close>. The
  samples are 32-bit floats and the product with \<open>2^15\<close> is exact in double precision,
  so a finite sample is modelled by a real number. Storing into the typed array applies
  the conversion \<open>ToInt16\<close>: truncate towards zero, then reduce modulo \<open>2^16\<close> into
  the signed range, which is \<open>word_of_int\<close> on 16-bit words read with \<open>sint\<close>.
\<close>

definition js_trunc :: "real \<Rightarrow> int" where
  "js_trunc x = (if x < 0 then - \<lfloor>- x\<rfloor> else \<lfloor>x\<rfloor>)"

definition toInt16 :: "real \<Rightarrow> 16 word" where
  "toInt16 x = word_of_int (js_trunc x)"

definition quantize :: "real \<Rightarrow> 16 word" where
  "quantize sample = toInt16 (sample * 32768)"

text \<open>
  Quantization in the words of the specification: round to nearest, then clamp to the
  16-bit range.
\<close>

definition quantize_spec :: "real \<Rightarrow> int" where
  "quantize_spec sample = max (- 32768) (min 32767 (round (sample * 32768)))"

section \<open>The voice pipeline\<close>

text \<open>
  The voice state of \<open>Home\<close>: the flag \<open>isListening\<close> and the four refs. Audio
  contexts, microphone tracks, script processors and session promises are identified by
  numbers; a media stream is the list of its tracks. Three sets record what the refs
  point to on the browser side: the tracks still capturing, the processors still
  connected, and the audio contexts not yet closed. They outlive the refs, so that a
  resource whose ref was dropped without releasing it shows as a leak.

  A handler runs to completion, up to its first \<open>await\<close>; an exception that would
  leave a handler is a result \<open>Inl\<close>. \<open>startListening\<close> is an \<open>async\<close> function:
  it runs up to \<open>await getUserMedia\<close> and suspends there, and its continuation runs
  as a later step, after whatever other handlers ran in between.
  \<open>awaitingMedia\<close> counts the calls suspended at that \<open>await\<close>.
\<close>

datatype js_error = TypeError | SyntaxError | DOMException string

record voice =
  isListening :: bool
  audioContextRef :: "nat option"
  streamRef :: "nat list option"
  processorRef :: "nat option"
  sessionPromiseRef :: "nat option"
  liveTracks :: "nat set"
  connectedProcessors :: "nat set"
  openContexts :: "nat set"
  awaitingMedia :: nat

text \<open>\<open>AudioContext.close()\<close> rejects on a context that is already closed.\<close>

definition close_context :: "nat \<Rightarrow> voice \<Rightarrow> js_error + voice" where
  "close_context c s =
     (if c \<in> openContexts s then Inr (s\<lparr>openContexts := openContexts s - {c}\<rparr>)
      else Inl (DOMException ''InvalidStateError''))"

text \<open>
  \<open>stopListening\<close>. The rejection of \<open>close()\<close> is swallowed by
  \<open>.catch(() => {})\<close>; the ref is cleared either way. A call of
  \<open>startListening\<close> that is suspended stays suspended.
\<close>

definition stopListening :: "voice \<Rightarrow> js_error + voice" where
  "stopListening s =
     (let s1 = s\<lparr>isListening := False\<rparr>;
          s2 = (case processorRef s1 of
                  None \<Rightarrow> s1
                | Some processor \<Rightarrow>
                    s1\<lparr>connectedProcessors := connectedProcessors s1 - {processor},
                       processorRef := None\<rparr>);
          s3 = (case streamRef s2 of
                  None \<Rightarrow> s2
                | Some tracks \<Rightarrow>
                    s2\<lparr>liveTracks := liveTracks s2 - set tracks, streamRef := None\<rparr>);
          s4 = (case audioContextRef s3 of
                  None \<Rightarrow> s3
                | Some context \<Rightarrow>
                    (case close_context context s3 of Inl _ \<Rightarrow> s3 | Inr s' \<Rightarrow> s')
                      \<lparr>audioContextRef := None\<rparr>)
      in Inr (s4\<lparr>sessionPromiseRef := None\<rparr>))"

text \<open>
  What the calls at the start of \<open>startListening\<close> do is taken from the
  environment: the two constructors return or throw, and the call of
  \<open>getUserMedia\<close> returns its promise or throws at once (no
  \<open>navigator.mediaDevices\<close>).
\<close>

record start_env =
  new_client :: "js_error option"
  new_context :: "js_error + nat"
  media_request :: "js_error option"

text \<open>
  \<open>startListening\<close> up to the \<open>await\<close>. Everything after
  \<open>setIsListening(true)\<close> is inside \<open>try\<close>; the \<open>catch\<close> branch calls
  \<open>stopListening\<close>. The call returns its promise to the caller in every case.
\<close>

definition startListening :: "start_env \<Rightarrow> voice \<Rightarrow> js_error + voice" where
  "startListening env s =
     (if isListening s then Inr s
      else
        let s1 = s\<lparr>isListening := True\<rparr>
        in case new_client env of
             Some _ \<Rightarrow> stopListening s1
           | None \<Rightarrow>
               (case new_context env of
                  Inl _ \<Rightarrow> stopListening s1
                | Inr audioContext \<Rightarrow>
                    let s2 = s1\<lparr>audioContextRef := Some audioContext,
                                openContexts := insert audioContext (openContexts s1)\<rparr>
                    in case media_request env of
                         Some _ \<Rightarrow> stopListening s2
                       | None \<Rightarrow> Inr (s2\<lparr>awaitingMedia := Suc (awaitingMedia s2)\<rparr>)))"

text \<open>
  The continuation of a suspended call, when \<open>getUserMedia\<close> settles. A rejection
  is caught and \<open>stopListening\<close> runs. Otherwise the tracks of the granted stream
  are capturing, the stream is stored in \<open>streamRef\<close>, and the promise returned by
  \<open>live.connect\<close> is stored in \<open>sessionPromiseRef\<close>; that promise is not awaited,
  so a connection that fails later is not caught here.
\<close>

definition startListening_resume :: "js_error + nat list \<Rightarrow> nat \<Rightarrow> voice \<Rightarrow> js_error + voice" where
  "startListening_resume media sessionPromise s =
     (let s1 = s\<lparr>awaitingMedia := awaitingMedia s - 1\<rparr>
      in case media of
           Inl _ \<Rightarrow> stopListening s1
         | Inr stream \<Rightarrow>
             Inr (s1\<lparr>streamRef := Some stream,
                    liveTracks := liveTracks s1 \<union> set stream,
                    sessionPromiseRef := Some sessionPromise\<rparr>))"

definition toggleListening :: "start_env \<Rightarrow> voice \<Rightarrow> js_error + voice" where
  "toggleListening env s = (if isListening s then stopListening s else startListening env s)"

definition onopen :: "nat \<Rightarrow> voice \<Rightarrow> js_error + voice" where
  "onopen processor s =
     Inr (s\<lparr>processorRef := Some processor,
            connectedProcessors := insert processor (connectedProcessors s)\<rparr>)"

definition onclose :: "voice \<Rightarrow> js_error + voice" where
  "onclose s = stopListening s"

definition onerror :: "js_error \<Rightarrow> voice \<Rightarrow> js_error + voice" where
  "onerror e s = stopListening s"

text \<open>
  The events of the voice subsystem and the steps they cause. \<open>getUserMedia\<close> can
  settle only for a call that is suspended.
\<close>

datatype event =
    StartListening start_env
  | MediaSettled "js_error + nat list" nat
  | StopListening
  | ToggleListening start_env
  | OnOpen nat
  | OnClose
  | OnError js_error

fun handle :: "event \<Rightarrow> voice \<Rightarrow> js_error + voice" where
  "handle (StartListening env) s = startListening env s"
| "handle (MediaSettled media sessionPromise) s = startListening_resume media sessionPromise s"
| "handle StopListening s = stopListening s"
| "handle (ToggleListening env) s = toggleListening env s"
| "handle (OnOpen processor) s = onopen processor s"
| "handle OnClose s = onclose s"
| "handle (OnError e) s = onerror e s"

fun enabled :: "event \<Rightarrow> voice \<Rightarrow> bool" where
  "enabled (MediaSettled media sessionPromise) s = (0 < awaitingMedia s)"
| "enabled ev s = True"

definition initial_voice :: voice where
  "initial_voice =
     \<lparr>isListening = False, audioContextRef = None, streamRef = None, processorRef = None,
      sessionPromiseRef = None, liveTracks = {}, connectedProcessors = {}, openContexts = {},
      awaitingMedia = 0\<rparr>"

inductive step :: "voice \<Rightarrow> event \<Rightarrow> voice \<Rightarrow> bool" where
  "enabled ev s \<Longrightarrow> handle ev s = Inr s' \<Longrightarrow> step s ev s'"

code_pred step .

inductive reachable :: "voice \<Rightarrow> bool" where
  reach_init: "reachable initial_voice"
| reach_step: "reachable s \<Longrightarrow> step s ev s' \<Longrightarrow> reachable s'"

text \<open>
  The runs in which no handler overtakes a suspended call: while a call of
  \<open>startListening\<close> is suspended, the next step is its continuation.
\<close>

inductive uninterrupted :: "voice \<Rightarrow> bool" where
  unint_init: "uninterrupted initial_voice"
| unint_step: "uninterrupted s \<Longrightarrow> awaitingMedia s = 0 \<Longrightarrow> step s ev s' \<Longrightarrow> uninterrupted s'"
| unint_resume:
    "uninterrupted s \<Longrightarrow> 0 < awaitingMedia s \<Longrightarrow>
     step s (MediaSettled media sessionPromise) s' \<Longrightarrow> uninterrupted s'"




section \<open>Error messages\<close>

text \<open>
  \<open>parseError\<close> searches its argument with the regular expression
  \<open>/{"error":(.*)}/gm\<close> and hands the captured group to \<open>JSON.parse\<close>. The
  parser belongs to the JavaScript runtime and is a parameter of the model; it returns a
  JSON value or throws. An object is the list of its properties.
\<close>

datatype json =
    JNull
  | JBool bool
  | JNumber real
  | JString string
  | JArray "json list"
  | JObject "(string \<times> json) list"

text \<open>Truthiness, as \<open>||\<close> tests it.\<close>

fun truthy :: "json \<Rightarrow> bool" where
  "truthy JNull = False"
| "truthy (JBool b) = b"
| "truthy (JNumber n) = (n \<noteq> 0)"
| "truthy (JString s) = (s \<noteq> [])"
| "truthy (JArray xs) = True"
| "truthy (JObject kvs) = True"

text \<open>
  \<open>err.message\<close>: a \<open>TypeError\<close> on \<open>null\<close>, \<open>undefined\<close> on a value
  without that property.
\<close>

fun get_message :: "json \<Rightarrow> js_error + json option" where
  "get_message JNull = Inl TypeError"
| "get_message (JObject kvs) = Inr (map_of kvs ''message'')"
| "get_message v = Inr None"

text \<open>
  \<open>regex.exec(error)\<close> on a fresh expression: the leftmost position where the token
  \<open>{"error":\<close> is followed, on the same line, by a closing brace. The dot does not
  match a line terminator and \<open>.*\<close> is greedy, so the group runs up to the last
  closing brace of that line. The result is the captured group \<open>m[1]\<close>, or \<open>None\<close>
  when \<open>exec\<close> returns \<open>null\<close>. Characters are single bytes, so the line
  terminators are line feed and carriage return.
\<close>

definition is_line_terminator :: "char \<Rightarrow> bool" where
  "is_line_terminator c = (c = CHR 0x0A \<or> c = CHR 0x0D)"

definition error_token :: string where
  \<open>error_token = ''{"error":''\<close>

definition capture_group :: "string \<Rightarrow> string option" where
  "capture_group rest =
     (let line = takeWhile (\<lambda>c. \<not> is_line_terminator c) rest
      in if CHR ''}'' \<in> set line
         then Some (rev (tl (dropWhile (\<lambda>c. c \<noteq> CHR ''}'') (rev line))))
         else None)"

fun regex_exec :: "string \<Rightarrow> string option" where
  "regex_exec [] = None"
| "regex_exec (c # cs) =
     (case (if prefix error_token (c # cs)
            then capture_group (drop (length error_token) (c # cs)) else None) of
        Some e \<Rightarrow> Some e
      | None \<Rightarrow> regex_exec cs)"

text \<open>
  The body of the \<open>try\<close> block, then the function with its \<open>catch\<close>. Indexing
  the \<open>null\<close> match throws a \<open>TypeError\<close>.
\<close>

definition parseError_try :: "(string \<Rightarrow> js_error + json) \<Rightarrow> string \<Rightarrow> js_error + json" where
  "parseError_try JSON_parse error =
     (case regex_exec error of
        None \<Rightarrow> Inl TypeError
      | Some e \<Rightarrow>
          (case JSON_parse e of
             Inl x \<Rightarrow> Inl x
           | Inr err \<Rightarrow>
               (case get_message err of
                  Inl x \<Rightarrow> Inl x
                | Inr None \<Rightarrow> Inr (JString error)
                | Inr (Some message) \<Rightarrow>
                    Inr (if truthy message then message else JString error))))"

definition parseError :: "(string \<Rightarrow> js_error + json) \<Rightarrow> string \<Rightarrow> json" where
  "parseError JSON_parse error =
     (case parseError_try JSON_parse error of Inl _ \<Rightarrow> JString error | Inr v \<Rightarrow> v)"

section \<open>Submitting the drawing\<close>

text \<open>
  \<open>handleSubmit\<close> awaits the external generation call inside a \<open>try\<close>
  block, whose outcome is a parameter: something in the block throws an error with an
  optional \<open>message\<close>, or the call responds with an optional list of parts, each
  with an optional \<open>inlineData\<close> whose \<open>data\<close> is optional too.
  \<open>imageData_of\<close> is the payload the handler accepts: the data of the first part
  that has \<open>inlineData\<close>, if it is a non-empty string. The handler, its
  continuation after the call and the commit of the render that follows are one step.
\<close>

fun includes_str :: "string \<Rightarrow> string \<Rightarrow> bool" where
  "includes_str [] t = (t = [])"
| "includes_str (c # cs) t = (prefix t (c # cs) \<or> includes_str cs t)"

datatype generate_result =
    Threw "string option"
  | Responded "string option option list option"

fun first_inlineData :: "string option option list \<Rightarrow> string option" where
  "first_inlineData [] = None"
| "first_inlineData (None # parts) = first_inlineData parts"
| "first_inlineData (Some inlineData # parts) = inlineData"

definition imageData_of :: "generate_result \<Rightarrow> string option" where
  "imageData_of r =
     (case r of
        Threw _ \<Rightarrow> None
      | Responded None \<Rightarrow> None
      | Responded (Some parts) \<Rightarrow>
          (case first_inlineData parts of
             None \<Rightarrow> None
           | Some d \<Rightarrow> if d = [] then None else Some d))"

text \<open>
  The commit of the render that follows a state update. With \<open>hasKey\<close> false,
  \<open>Home\<close> returns the key screen, which contains no canvas: React unmounts the canvas
  element and sets \<open>canvasRef.current\<close> to \<open>null\<close>, and the raster of that element
  is gone. Otherwise the editor is rendered and a mounted canvas stays mounted. Only the
  commit after \<open>handleSubmit\<close> is modelled, and \<open>handleSubmit\<close> gets past its
  guard only with a canvas mounted, so mounting a new canvas does not arise.
\<close>

definition render_commit :: "editor \<Rightarrow> editor" where
  "render_commit s = (if hasKey s = Some False then s\<lparr>canvasRef := None\<rparr> else s)"

text \<open>The failure that the \<open>catch\<close> branch treats as an expired or invalid key.\<close>

fun key_error :: "generate_result \<Rightarrow> bool" where
  "key_error (Threw (Some m)) = includes_str m ''Requested entity was not found''"
| "key_error r = False"

definition handleSubmit :: "generate_result \<Rightarrow> editor \<Rightarrow> editor" where
  "handleSubmit r s =
     (case canvasRef s of
        None \<Rightarrow> s
      | Some canvas \<Rightarrow>
          (let s1 = s\<lparr>isLoading := True\<rparr>;
               s2 = (case r of
                       Responded _ \<Rightarrow>
                         (case imageData_of r of
                            Some imageData \<Rightarrow>
                              s1\<lparr>generatedImage :=
                                   Some (''data:image/png;base64,'' @ imageData)\<rparr>
                          | None \<Rightarrow> s1)
                     | Threw message \<Rightarrow>
                         (let msg = (case message of None \<Rightarrow> [] | Some m \<Rightarrow> m);
                              s1' = (if includes_str msg ''Requested entity was not found''
                                     then s1\<lparr>hasKey := Some False,
                                            errorMessage :=
                                              ''Sesi kunci API tamat atau tidak sah.''\<rparr>
                                     else s1\<lparr>errorMessage :=
                                              (if msg \<noteq> [] then msg
                                               else ''Ralat tidak dijangka berlaku.'')\<rparr>)
                          in s1'\<lparr>showErrorModal := True\<rparr>))
           in render_commit (s2\<lparr>isLoading := False\<rparr>)))"

section \<open>Sample values\<close>

text \<open>
  Concrete states and environments for the examples: an editor with a sketch and
  history, an editor with a white canvas and two strokes to draw on it, a pipeline that
  is streaming, an environment in which both constructors of \<open>startListening\<close>
  succeed, a pipeline in which a second stream has overwritten the first, and the values
  of \<open>JSON.parse\<close> on two texts.
\<close>

definition drawing_editor :: editor where
  "drawing_editor =
     \<lparr>canvasRef = Some \<lparr>node = 0, pixels = ''sketch'', ctx2d = True\<rparr>,
      undoStack = [''blank''], redoStack = [''older''], prompt = ''langit biru'',
      generatedImage = None, isLoading = False, showErrorModal = False, errorMessage = [],
      hasKey = Some True, decoding = []\<rparr>"

definition white_editor :: editor where
  "white_editor =
     \<lparr>canvasRef = Some \<lparr>node = 0, pixels = ''w'', ctx2d = True\<rparr>,
      undoStack = [], redoStack = [], prompt = [], generatedImage = None,
      isLoading = False, showErrorModal = False, errorMessage = [],
      hasKey = Some True, decoding = []\<rparr>"

definition two_strokes :: "(string \<Rightarrow> string) list" where
  "two_strokes = [\<lambda>p. p @ ''a'', \<lambda>p. p @ ''b'']"

definition streaming_voice :: voice where
  "streaming_voice =
     \<lparr>isListening = True, audioContextRef = Some 1, streamRef = Some [2],
      processorRef = Some 3, sessionPromiseRef = Some 4, liveTracks = {2},
      connectedProcessors = {3}, openContexts = {1}, awaitingMedia = 0\<rparr>"

definition granting_env :: start_env where
  "granting_env = \<lparr>new_client = None, new_context = Inr 1, media_request = None\<rparr>"


definition JSON_parse_sample :: "string \<Rightarrow> js_error + json" where
  \<open>JSON_parse_sample text =
     (if text = ''{"message":"quota exceeded","code":429}''
        then Inr (JObject [(''message'', JString ''quota exceeded''), (''code'', JNumber 429)])
      else if text = ''{"message":""}''
        then Inr (JObject [(''message'', JString '''')])
      else Inl SyntaxError)\<close>


section \<open>Properties of the snapshot history\<close>

subsection \<open>Repeated undo and redo\<close>

lemma undo_step:
  "ctx2d c \<Longrightarrow>
   undo_then_onload
     (s\<lparr>canvasRef := Some (c\<lparr>pixels := p\<rparr>), undoStack := u @ [y], redoStack := r,
        decoding := []\<rparr>) =
   s\<lparr>canvasRef := Some (c\<lparr>pixels := y\<rparr>), undoStack := u, redoStack := r @ [p],
     decoding := []\<rparr>"
  by (simp add: undo_then_onload_def undo_def loadState_def img_onload_def)

lemma redo_step:
  "ctx2d c \<Longrightarrow>
   redo_then_onload
     (s\<lparr>canvasRef := Some (c\<lparr>pixels := p\<rparr>), undoStack := u, redoStack := r @ [y],
        decoding := []\<rparr>) =
   s\<lparr>canvasRef := Some (c\<lparr>pixels := y\<rparr>), undoStack := u @ [p], redoStack := r,
     decoding := []\<rparr>"
  by (simp add: redo_then_onload_def redo_def loadState_def img_onload_def)

lemma undo_many:
  "ctx2d c \<Longrightarrow>
   (undo_then_onload ^^ length xs)
     (s\<lparr>canvasRef := Some (c\<lparr>pixels := p\<rparr>), undoStack := u @ xs, redoStack := r,
        decoding := []\<rparr>) =
   s\<lparr>canvasRef := Some (c\<lparr>pixels := hd (xs @ [p])\<rparr>), undoStack := u,
     redoStack := r @ rev (tl (xs @ [p])), decoding := []\<rparr>"
proof (induction xs arbitrary: p r rule: rev_induct)
  case Nil
  then show ?case by simp
next
  case (snoc y ys)
  have "(undo_then_onload ^^ length (ys @ [y]))
          (s\<lparr>canvasRef := Some (c\<lparr>pixels := p\<rparr>), undoStack := u @ ys @ [y],
             redoStack := r, decoding := []\<rparr>) =
        (undo_then_onload ^^ length ys)
          (undo_then_onload
            (s\<lparr>canvasRef := Some (c\<lparr>pixels := p\<rparr>), undoStack := (u @ ys) @ [y],
               redoStack := r, decoding := []\<rparr>))"
    by (simp add: funpow_swap1)
  also have "\<dots> = (undo_then_onload ^^ length ys)
          (s\<lparr>canvasRef := Some (c\<lparr>pixels := y\<rparr>), undoStack := u @ ys,
             redoStack := r @ [p], decoding := []\<rparr>)"
    using snoc.prems by (simp only: undo_step)
  also have "\<dots> = s\<lparr>canvasRef := Some (c\<lparr>pixels := hd (ys @ [y])\<rparr>), undoStack := u,
     redoStack := (r @ [p]) @ rev (tl (ys @ [y])), decoding := []\<rparr>"
    using snoc.prems by (rule snoc.IH)
  also have "\<dots> = s\<lparr>canvasRef := Some (c\<lparr>pixels := hd ((ys @ [y]) @ [p])\<rparr>),
     undoStack := u, redoStack := r @ rev (tl ((ys @ [y]) @ [p])), decoding := []\<rparr>"
    by (cases ys) simp_all
  finally show ?case by simp
qed

lemma redo_many:
  "ctx2d c \<Longrightarrow>
   (redo_then_onload ^^ length xs)
     (s\<lparr>canvasRef := Some (c\<lparr>pixels := p\<rparr>), undoStack := u, redoStack := r @ xs,
        decoding := []\<rparr>) =
   s\<lparr>canvasRef := Some (c\<lparr>pixels := hd (xs @ [p])\<rparr>),
     undoStack := u @ rev (tl (xs @ [p])), redoStack := r, decoding := []\<rparr>"
proof (induction xs arbitrary: p u rule: rev_induct)
  case Nil
  then show ?case by simp
next
  case (snoc y ys)
  have "(redo_then_onload ^^ length (ys @ [y]))
          (s\<lparr>canvasRef := Some (c\<lparr>pixels := p\<rparr>), undoStack := u,
             redoStack := r @ ys @ [y], decoding := []\<rparr>) =
        (redo_then_onload ^^ length ys)
          (redo_then_onload
            (s\<lparr>canvasRef := Some (c\<lparr>pixels := p\<rparr>), undoStack := u,
               redoStack := (r @ ys) @ [y], decoding := []\<rparr>))"
    by (simp add: funpow_swap1)
  also have "\<dots> = (redo_then_onload ^^ length ys)
          (s\<lparr>canvasRef := Some (c\<lparr>pixels := y\<rparr>), undoStack := u @ [p],
             redoStack := r @ ys, decoding := []\<rparr>)"
    using snoc.prems by (simp only: redo_step)
  also have "\<dots> = s\<lparr>canvasRef := Some (c\<lparr>pixels := hd (ys @ [y])\<rparr>),
     undoStack := (u @ [p]) @ rev (tl (ys @ [y])), redoStack := r, decoding := []\<rparr>"
    using snoc.prems by (rule snoc.IH)
  also have "\<dots> = s\<lparr>canvasRef := Some (c\<lparr>pixels := hd ((ys @ [y]) @ [p])\<rparr>),
     undoStack := u @ rev (tl ((ys @ [y]) @ [p])), redoStack := r, decoding := []\<rparr>"
    by (cases ys) simp_all
  finally show ?case by simp
qed

lemma trace_nonempty: "trace fs p \<noteq> []"
  by (cases fs) simp_all

lemma length_trace: "length (trace fs p) = Suc (length fs)"
  by (induction fs arbitrary: p) simp_all

lemma hd_trace: "hd (trace fs p) = p"
  by (cases fs) simp_all

lemma run_edits_mounted:
  "ctx2d c \<Longrightarrow>
   run_edits fs (s\<lparr>canvasRef := Some (c\<lparr>pixels := p\<rparr>), undoStack := u, redoStack := r\<rparr>) =
   s\<lparr>canvasRef := Some (c\<lparr>pixels := last (trace fs p)\<rparr>),
     undoStack := u @ butlast (trace fs p),
     redoStack := (if fs = [] then r else [])\<rparr>"
proof (induction fs arbitrary: p u r)
  case Nil
  then show ?case by simp
next
  case (Cons f fs)
  have "paint f (saveState (s\<lparr>canvasRef := Some (c\<lparr>pixels := p\<rparr>), undoStack := u, redoStack := r\<rparr>))
        = s\<lparr>canvasRef := Some (c\<lparr>pixels := f p\<rparr>), undoStack := u @ [p], redoStack := []\<rparr>"
    using Cons.prems by (simp add: paint_def saveState_def)
  then show ?case
    using Cons.IH [OF Cons.prems]
    by (cases fs) (simp_all add: trace_nonempty)
qed

lemma unmounted_fixed:
  assumes "canvasRef s = None" and "decoding s = []"
  shows "saveState s = s" and "paint f s = s"
    and "undo_then_onload s = s" and "redo_then_onload s = s"
  using assms
  by (simp_all add: saveState_def paint_def undo_then_onload_def redo_then_onload_def
      undo_def redo_def img_onload_def)

lemma run_edits_unmounted: "canvasRef s = None \<Longrightarrow> run_edits fs s = s"
  by (induction fs) (simp_all add: saveState_def paint_def)

lemma funpow_fixed: "f x = x \<Longrightarrow> (f ^^ n) x = x"
  by (induction n) simp_all

lemma noctx_undo_many:
  "canvasRef s = Some c \<Longrightarrow> \<not> ctx2d c \<Longrightarrow> decoding s = [] \<Longrightarrow>
   (undo_then_onload ^^ length xs) (s\<lparr>undoStack := u @ xs, redoStack := r\<rparr>) =
   s\<lparr>undoStack := u, redoStack := r @ replicate (length xs) (pixels c)\<rparr>"
proof (induction xs arbitrary: r rule: rev_induct)
  case Nil
  then show ?case by simp
next
  case (snoc y ys)
  have "undo_then_onload (s\<lparr>undoStack := (u @ ys) @ [y], redoStack := r\<rparr>) =
        s\<lparr>undoStack := u @ ys, redoStack := r @ [pixels c]\<rparr>"
    using snoc.prems
    by (simp add: undo_then_onload_def undo_def loadState_def img_onload_def butlast_append)
  then have "(undo_then_onload ^^ length (ys @ [y]))
          (s\<lparr>undoStack := u @ ys @ [y], redoStack := r\<rparr>) =
        (undo_then_onload ^^ length ys) (s\<lparr>undoStack := u @ ys, redoStack := r @ [pixels c]\<rparr>)"
    by (simp add: funpow_swap1)
  also have "\<dots> = s\<lparr>undoStack := u,
       redoStack := (r @ [pixels c]) @ replicate (length ys) (pixels c)\<rparr>"
    using snoc.prems by (rule snoc.IH)
  finally show ?case by (simp add: replicate_append_same)
qed

lemma noctx_redo_many:
  "canvasRef s = Some c \<Longrightarrow> \<not> ctx2d c \<Longrightarrow> decoding s = [] \<Longrightarrow>
   (redo_then_onload ^^ length xs) (s\<lparr>undoStack := u, redoStack := r @ xs\<rparr>) =
   s\<lparr>undoStack := u @ replicate (length xs) (pixels c), redoStack := r\<rparr>"
proof (induction xs arbitrary: u rule: rev_induct)
  case Nil
  then show ?case by simp
next
  case (snoc y ys)
  have "redo_then_onload (s\<lparr>undoStack := u, redoStack := (r @ ys) @ [y]\<rparr>) =
        s\<lparr>undoStack := u @ [pixels c], redoStack := r @ ys\<rparr>"
    using snoc.prems
    by (simp add: redo_then_onload_def redo_def loadState_def img_onload_def butlast_append)
  then have "(redo_then_onload ^^ length (ys @ [y]))
          (s\<lparr>undoStack := u, redoStack := r @ ys @ [y]\<rparr>) =
        (redo_then_onload ^^ length ys) (s\<lparr>undoStack := u @ [pixels c], redoStack := r @ ys\<rparr>)"
    by (simp add: funpow_swap1)
  also have "\<dots> = s\<lparr>undoStack := (u @ [pixels c]) @ replicate (length ys) (pixels c),
       redoStack := r\<rparr>"
    using snoc.prems by (rule snoc.IH)
  finally show ?case by (simp add: replicate_append_same)
qed

lemma run_edits_noctx:
  "canvasRef s = Some c \<Longrightarrow> \<not> ctx2d c \<Longrightarrow>
   run_edits fs (s\<lparr>undoStack := u, redoStack := r\<rparr>) =
   s\<lparr>undoStack := u @ replicate (length fs) (pixels c),
     redoStack := (if fs = [] then r else [])\<rparr>"
proof (induction fs arbitrary: u r)
  case Nil
  then show ?case by simp
next
  case (Cons f fs)
  have "paint f (saveState (s\<lparr>undoStack := u, redoStack := r\<rparr>)) =
        s\<lparr>undoStack := u @ [pixels c], redoStack := []\<rparr>"
    using Cons.prems by (simp add: paint_def saveState_def)
  then show ?case
    using Cons.IH [OF Cons.prems]
    by (simp add: replicate_app_Cons_same)
qed

text \<open>
  Claim C1, as the claim states it, fails when \<open>undo\<close> is called again before the
  image of the previous call has been decoded: the second call reads the raster that is
  still on the canvas. After two strokes on a white canvas, two such calls and the two
  decodes show the white canvas again, but the first \<open>redo\<close> then shows the raster
  after both strokes where the replay should show the raster after the first, and after
  the second \<open>redo\<close> the undo stack holds \<open>wab\<close> in place of \<open>wa\<close>.
\<close>

theorem undo_before_decode_breaks_replay:
  "canvasRef (run_edits two_strokes white_editor)
     = Some \<lparr>node = 0, pixels = ''wab'', ctx2d = True\<rparr> \<and>
   undoStack (run_edits two_strokes white_editor) = [''w'', ''wa''] \<and>
   canvasRef (img_onload 0 (img_onload 0 (undo (undo (run_edits two_strokes white_editor)))))
     = Some \<lparr>node = 0, pixels = ''w'', ctx2d = True\<rparr> \<and>
   canvasRef (redo_then_onload
      (img_onload 0 (img_onload 0 (undo (undo (run_edits two_strokes white_editor))))))
     = Some \<lparr>node = 0, pixels = ''wab'', ctx2d = True\<rparr> \<and>
   undoStack (redo_then_onload (redo_then_onload
      (img_onload 0 (img_onload 0 (undo (undo (run_edits two_strokes white_editor)))))))
     = [''w'', ''wab'']"
  by (simp add: two_strokes_def white_editor_def saveState_def paint_def undo_def redo_def
      loadState_def img_onload_def redo_then_onload_def)

text \<open>
  Claim C1, amended. Take any state in which no image is decoding and run any sequence
  of \<open>N\<close> mutating operations, each preceded by \<open>saveState\<close>. Then \<open>N\<close> calls of
  \<open>undo\<close>, each made after the image of the previous call has been decoded, bring the
  canvas (and the undo stack) back to what they were before the sequence, and \<open>N\<close>
  further calls of \<open>redo\<close>, made under the same condition, bring the whole state,
  canvas and both stacks, back to the state after the sequence.
\<close>

theorem undo_redo_round_trip:
  assumes idle: "decoding s = []"
  shows "canvasRef ((undo_then_onload ^^ length fs) (run_edits fs s)) = canvasRef s \<and>
   undoStack ((undo_then_onload ^^ length fs) (run_edits fs s)) = undoStack s \<and>
   (redo_then_onload ^^ length fs) ((undo_then_onload ^^ length fs) (run_edits fs s))
     = run_edits fs s"
proof (cases "canvasRef s")
  case None
  then show ?thesis
    using idle by (simp add: run_edits_unmounted funpow_fixed unmounted_fixed)
next
  case (Some c)
  define u where "u = undoStack s"
  define r where "r = redoStack s"
  define r' where "r' = (if fs = [] then r else [])"
  define final where "final = run_edits fs s"
  show ?thesis
  proof (cases "ctx2d c")
    case True
    define p where "p = pixels c"
    define t where "t = trace fs p"
    have s_eq: "s = s\<lparr>canvasRef := Some (c\<lparr>pixels := p\<rparr>), undoStack := u, redoStack := r\<rparr>"
      using Some by (simp add: p_def u_def r_def)
    have s_idle: "s\<lparr>decoding := []\<rparr> = s"
      using idle by simp
    have len: "length t = Suc (length fs)"
      by (simp add: t_def length_trace)
    have t_ne: "t \<noteq> []" and t_hd: "hd t = p"
      by (simp_all add: t_def trace_nonempty hd_trace)
    have "final =
        s\<lparr>canvasRef := Some (c\<lparr>pixels := last t\<rparr>), undoStack := u @ butlast t, redoStack := r'\<rparr>"
      using run_edits_mounted [OF True, where fs = fs and s = s and p = p and u = u and r = r] s_eq
      by (simp add: t_def r'_def final_def)
    then have s1: "final =
        s\<lparr>canvasRef := Some (c\<lparr>pixels := last t\<rparr>), undoStack := u @ butlast t,
          redoStack := r', decoding := []\<rparr>"
      using idle by simp
    have s2: "(undo_then_onload ^^ length fs) final =
        s\<lparr>canvasRef := Some (c\<lparr>pixels := p\<rparr>), undoStack := u,
          redoStack := r' @ rev (tl t), decoding := []\<rparr>"
      using undo_many [OF True, where xs = "butlast t" and s = s and p = "last t" and u = u and r = r'] t_ne t_hd
      by (simp add: s1 len)
    have "rev (tl t) @ [p] = rev t"
      using t_ne t_hd by (cases t) simp_all
    then have s3: "(redo_then_onload ^^ length fs) ((undo_then_onload ^^ length fs) final) =
        s\<lparr>canvasRef := Some (c\<lparr>pixels := last t\<rparr>), undoStack := u @ butlast t,
          redoStack := r', decoding := []\<rparr>"
      using redo_many [OF True, where xs = "rev (tl t)" and s = s and p = p and u = u and r = r'] t_ne
      by (simp add: s2 len hd_rev butlast_rev [symmetric] del: butlast_rev)
    have "canvasRef ((undo_then_onload ^^ length fs) final) = canvasRef s"
      using Some by (simp add: s2 p_def)
    moreover have "undoStack ((undo_then_onload ^^ length fs) final) = undoStack s"
      by (simp add: s2 u_def)
    moreover have "(redo_then_onload ^^ length fs) ((undo_then_onload ^^ length fs) final) = final"
      by (rule trans [OF s3 s1 [symmetric]])
    ultimately show ?thesis
      by (simp only: final_def simp_thms)
  next
    case False
    have s_eq: "s = s\<lparr>undoStack := u, redoStack := r\<rparr>"
      by (simp add: u_def r_def)
    have s1: "final =
        s\<lparr>undoStack := u @ replicate (length fs) (pixels c), redoStack := r'\<rparr>"
      using run_edits_noctx [OF Some False, where fs = fs and u = u and r = r] s_eq
      by (simp add: r'_def final_def)
    have s2: "(undo_then_onload ^^ length fs) final =
        s\<lparr>undoStack := u, redoStack := r' @ replicate (length fs) (pixels c)\<rparr>"
      using noctx_undo_many [OF Some False idle, where xs = "replicate (length fs) (pixels c)" and u = u and r = r']
      by (simp add: s1)
    have s3: "(redo_then_onload ^^ length fs) ((undo_then_onload ^^ length fs) final) =
        s\<lparr>undoStack := u @ replicate (length fs) (pixels c), redoStack := r'\<rparr>"
      using noctx_redo_many [OF Some False idle, where xs = "replicate (length fs) (pixels c)" and u = u and r = r']
      by (simp add: s2)
    have "canvasRef ((undo_then_onload ^^ length fs) final) = canvasRef s"
      by (simp add: s2)
    moreover have "undoStack ((undo_then_onload ^^ length fs) final) = undoStack s"
      by (simp add: s2 u_def)
    moreover have "(redo_then_onload ^^ length fs) ((undo_then_onload ^^ length fs) final) = final"
      by (rule trans [OF s3 s1 [symmetric]])
    ultimately show ?thesis
      by (simp only: final_def simp_thms)
  qed
qed

text \<open>Two strokes on the white canvas, undone and redone with each decode in between.\<close>

theorem undo_redo_round_trip_witness:
  "decoding white_editor = [] \<and>
   canvasRef ((undo_then_onload ^^ 2) (run_edits two_strokes white_editor))
     = Some \<lparr>node = 0, pixels = ''w'', ctx2d = True\<rparr> \<and>
   (redo_then_onload ^^ 2) ((undo_then_onload ^^ 2) (run_edits two_strokes white_editor))
     = white_editor\<lparr>canvasRef := Some \<lparr>node = 0, pixels = ''wab'', ctx2d = True\<rparr>,
         undoStack := [''w'', ''wa'']\<rparr>"
proof -
  have idle: "decoding white_editor = []"
    by (simp add: white_editor_def)
  have len: "length two_strokes = 2"
    by (simp add: two_strokes_def)
  show ?thesis
    using undo_redo_round_trip [OF idle, of two_strokes] idle
    by (simp add: len numeral_2_eq_2 two_strokes_def white_editor_def saveState_def
        paint_def)
qed

subsection \<open>The redo stack after a fresh mutation\<close>

text \<open>
  Claim C2, as the claim states it, fails where no canvas is mounted: \<open>saveState\<close>
  returns at its guard and the redo stack keeps its entries.
\<close>

theorem saveState_unmounted_keeps_redoStack:
  "redoStack (saveState
      \<lparr>canvasRef = None, undoStack = [''p0''], redoStack = [''p1''],
       prompt = [], generatedImage = None, isLoading = False, showErrorModal = False,
       errorMessage = [], hasKey = Some False, decoding = []\<rparr>) = [''p1'']"
  by (simp add: saveState_def)

text \<open>
  Claim C2, amended. Every call of \<open>saveState\<close> made while a canvas is mounted clears
  \<open>redoStack\<close>; without a canvas \<open>saveState\<close> changes nothing. In either case
  \<open>redo\<close> right after \<open>saveState\<close>, or after the mutation that follows it
  (any painting, or the fill of \<open>clearCanvas\<close>), is a no-op.
\<close>

theorem saveState_clears_redoStack:
  "(canvasRef s \<noteq> None \<longrightarrow> redoStack (saveState s) = []) \<and>
   (canvasRef s = None \<longrightarrow> saveState s = s) \<and>
   redo (saveState s) = saveState s \<and>
   redo (paint f (saveState s)) = paint f (saveState s) \<and>
   redo (clearCanvas blank s) = clearCanvas blank s"
  by (cases "canvasRef s")
    (auto simp add: saveState_def redo_def paint_def clearCanvas_def Let_def)

theorem saveState_clears_redoStack_witness:
  "redoStack (saveState drawing_editor) = [] \<and>
   redo (saveState drawing_editor) =
     drawing_editor\<lparr>undoStack := [''blank'', ''sketch''], redoStack := []\<rparr> \<and>
   redo (paint (\<lambda>p. p @ ''+stroke'') (saveState drawing_editor)) =
     drawing_editor\<lparr>canvasRef := Some \<lparr>node = 0, pixels = ''sketch+stroke'', ctx2d = True\<rparr>,
       undoStack := [''blank'', ''sketch''], redoStack := []\<rparr> \<and>
   saveState (drawing_editor\<lparr>canvasRef := None\<rparr>) = drawing_editor\<lparr>canvasRef := None\<rparr>"
  using saveState_clears_redoStack [of drawing_editor "\<lambda>p. p @ ''+stroke''" "''white''"]
    saveState_clears_redoStack [of "drawing_editor\<lparr>canvasRef := None\<rparr>" id "''white''"]
  by (simp add: saveState_def paint_def drawing_editor_def)

section \<open>Properties of the audio frames\<close>

lemma js_trunc_bounds:
  assumes "- 1 \<le> sample" "sample < 1"
  shows "- 32768 \<le> js_trunc (sample * 32768)" "js_trunc (sample * 32768) \<le> 32767"
proof -
  have lo: "- 32768 \<le> sample * 32768" and hi: "sample * 32768 < 32768"
    using assms by simp_all
  show "- 32768 \<le> js_trunc (sample * 32768)"
    using lo by (simp add: js_trunc_def le_floor_iff floor_le_iff) 
  show "js_trunc (sample * 32768) \<le> 32767"
    using hi lo unfolding js_trunc_def by (simp add: floor_less_iff le_floor_iff) linarith
qed

lemma js_trunc_near: "\<bar>real_of_int (js_trunc x) - x\<bar> < 1"
  unfolding js_trunc_def by (simp; linarith)

text \<open>
  Claim C3, as the claim states it, fails twice. A sample of exactly \<open>1.0\<close> gives
  \<open>32768\<close>, which wraps to \<open>-32768\<close> where rounding and clamping would give
  \<open>32767\<close>; and the sample \<open>3 / 2^17\<close>, scaled to \<open>0.75\<close>, is truncated to
  \<open>0\<close> where rounding would give \<open>1\<close>.
\<close>

theorem quantize_wraps_and_truncates:
  "sint (quantize 1) = - 32768 \<and> quantize_spec 1 = 32767 \<and>
   sint (quantize (3 / 131072)) = 0 \<and> quantize_spec (3 / 131072) = 1"
  by (simp add: quantize_def toInt16_def js_trunc_def quantize_spec_def round_def)

text \<open>
  Claim C3, amended. Every sample in the half-open range from \<open>-1.0\<close> (included) to
  \<open>1.0\<close> (excluded) is quantized to \<open>sample * 32768\<close> truncated towards zero;
  the result lies in the signed 16-bit range, nothing wraps, and it differs from the
  scaled sample by less than one.
\<close>

theorem quantize_truncates_in_range:
  assumes "- 1 \<le> sample" and "sample < 1"
  shows "sint (quantize sample) = js_trunc (sample * 32768) \<and>
         - 32768 \<le> sint (quantize sample) \<and> sint (quantize sample) \<le> 32767 \<and>
         \<bar>real_of_int (sint (quantize sample)) - sample * 32768\<bar> < 1"
proof -
  define k where "k = js_trunc (sample * 32768)"
  have b: "- 32768 \<le> k" "k \<le> 32767"
    using js_trunc_bounds [OF assms] by (simp_all add: k_def)
  have "sint (word_of_int k :: 16 word) = (k + 32768) mod 65536 - 32768"
    by (simp add: int_word_sint)
  also have "\<dots> = k"
    using b by simp
  finally have "sint (quantize sample) = k"
    by (simp add: quantize_def toInt16_def k_def)
  then show ?thesis
    using b js_trunc_near [of "sample * 32768"] by (simp add: k_def)
qed

text \<open>The samples \<open>3 / 2^17\<close>, \<open>-1.0\<close> and the largest sample below \<open>1.0\<close> on the 16-bit grid.\<close>

theorem quantize_truncates_in_range_witness:
  "sint (quantize (3 / 131072)) = 0 \<and> sint (quantize (- 1)) = - 32768 \<and>
   sint (quantize (32767 / 32768)) = 32767"
  using quantize_truncates_in_range [of "3 / 131072"] quantize_truncates_in_range [of "- 1"]
    quantize_truncates_in_range [of "32767 / 32768"]
  by (simp add: js_trunc_def)

section \<open>Properties of the transcript merge\<close>

text \<open>
  Claim C4, as the claim states it, fails for a buffer that ends with whitespace other
  than a space: after a tab the code still inserts the separator.
\<close>

theorem mergeFragment_space_only:
  "is_whitespace (last (''hello'' @ [CHR 0x09])) \<and>
   mergeFragment (''hello'' @ [CHR 0x09]) ''world'' = ''hello'' @ [CHR 0x09] @ '' world'' \<and>
   mergeFragment_spec (''hello'' @ [CHR 0x09]) ''world'' = ''hello'' @ [CHR 0x09] @ ''world''"
  by (simp add: mergeFragment_def mergeFragment_spec_def is_whitespace_def)

text \<open>
  Claim C4, amended. For every buffer and every non-empty fragment the merge returns
  buffer, separator, fragment, where the separator is one space if the buffer is
  non-empty and its last character is not the space character, and nothing otherwise.
  The buffer is a prefix of the result, \<open>onmessage\<close> stores exactly this merge in the
  prompt, and the three examples of the specification hold.
\<close>

theorem mergeFragment_appends:
  assumes "fragment \<noteq> []"
  shows "(buffer \<noteq> [] \<and> last buffer \<noteq> CHR '' '' \<longrightarrow>
            mergeFragment buffer fragment = buffer @ '' '' @ fragment) \<and>
         (buffer = [] \<or> last buffer = CHR '' '' \<longrightarrow>
            mergeFragment buffer fragment = buffer @ fragment) \<and>
         prefix buffer (mergeFragment buffer fragment) \<and>
         onmessage \<lparr>serverContent = Some \<lparr>inputTranscription =
             Some \<lparr>text_field = Some fragment\<rparr>\<rparr>\<rparr> s
           = s\<lparr>prompt := mergeFragment (prompt s) fragment\<rparr> \<and>
         mergeFragment '''' ''hello'' = ''hello'' \<and>
         mergeFragment ''hello'' ''world'' = ''hello world'' \<and>
         mergeFragment ''hello '' ''world'' = ''hello world''"
  using assms by (auto simp add: mergeFragment_def onmessage_def Let_def)

text \<open>
  The fragments \<open>turn\<close>, \<open>the\<close> and \<open>sky blue\<close> against an empty prompt, a
  prompt without and a prompt with a trailing space.
\<close>

theorem mergeFragment_appends_witness:
  "prompt (onmessage \<lparr>serverContent = Some \<lparr>inputTranscription =
       Some \<lparr>text_field = Some ''the''\<rparr>\<rparr>\<rparr> (drawing_editor\<lparr>prompt := ''turn''\<rparr>))
     = ''turn the'' \<and>
   mergeFragment ''turn the '' ''sky blue'' = ''turn the sky blue'' \<and>
   mergeFragment [] ''turn'' = ''turn''"
  using mergeFragment_appends [of "''the''" "''turn''" "drawing_editor\<lparr>prompt := ''turn''\<rparr>"]
    mergeFragment_appends [of "''sky blue''" "''turn the ''" drawing_editor]
    mergeFragment_appends [of "''turn''" "[]" drawing_editor]
  by (simp add: drawing_editor_def)

text \<open>
  Claim C10. A transcription message whose text is the empty string leaves the whole
  state, and so the prompt, as it was: no separator is appended.
\<close>

theorem onmessage_empty_fragment:
  "onmessage \<lparr>serverContent = Some \<lparr>inputTranscription = Some \<lparr>text_field = Some ''''\<rparr>\<rparr>\<rparr> s = s"
  by (simp add: onmessage_def)

text \<open>An empty fragment arriving while the prompt is \<open>langit biru\<close>.\<close>

theorem onmessage_empty_fragment_witness:
  "prompt (onmessage \<lparr>serverContent = Some \<lparr>inputTranscription =
      Some \<lparr>text_field = Some ''''\<rparr>\<rparr>\<rparr> drawing_editor) = ''langit biru''"
  using onmessage_empty_fragment [of drawing_editor]
  by (simp add: drawing_editor_def)

section \<open>Properties of the voice pipeline\<close>

subsection \<open>What \<open>stopListening\<close> computes\<close>




subsection \<open>The microphone is owned by \<open>streamRef\<close> in uninterrupted runs\<close>






lemma uninterrupted_reachable: "uninterrupted s \<Longrightarrow> reachable s"
  by (induction rule: uninterrupted.induct) (auto intro: reachable.intros)

subsection \<open>Starting, stopping and transport events\<close>

text \<open>
  Claim C5, as the claim states it, fails: called while the pipeline is listening,
  \<open>startListening\<close> does not fail; it returns normally with the state unchanged.
\<close>

theorem startListening_while_listening_no_error:
  "isListening streaming_voice \<and>
   startListening granting_env streaming_voice = Inr streaming_voice"
  by (simp add: startListening_def streaming_voice_def)

text \<open>
  Claim C5, amended. Calling \<open>startListening\<close> while \<open>isListening\<close> is set
  returns without an error and leaves the pipeline state unchanged.
\<close>

theorem startListening_while_listening:
  "isListening s \<Longrightarrow> startListening env s = Inr s"
  by (simp add: startListening_def)

text \<open>A second start while the session of the first is still connecting.\<close>

theorem startListening_while_listening_witness:
  "startListening granting_env
     \<lparr>isListening = True, audioContextRef = Some 1, streamRef = Some [2],
      processorRef = None, sessionPromiseRef = Some 4, liveTracks = {2},
      connectedProcessors = {}, openContexts = {1}, awaitingMedia = 0\<rparr>
   = Inr \<lparr>isListening = True, audioContextRef = Some 1, streamRef = Some [2],
      processorRef = None, sessionPromiseRef = Some 4, liveTracks = {2},
      connectedProcessors = {}, openContexts = {1}, awaitingMedia = 0\<rparr>"
  using startListening_while_listening [of
     "\<lparr>isListening = True, audioContextRef = Some 1, streamRef = Some [2],
      processorRef = None, sessionPromiseRef = Some 4, liveTracks = {2},
      connectedProcessors = {}, openContexts = {1}, awaitingMedia = 0\<rparr>" granting_env]
  by simp






section \<open>Properties of \<open>parseError\<close>\<close>

lemma capture_group_Some:
  assumes "capture_group rest = Some e"
  shows "\<exists>post. rest = e @ ''}'' @ post"
proof -
  define line where "line = takeWhile (\<lambda>c. \<not> is_line_terminator c) rest"
  define bk where "bk = dropWhile (\<lambda>c. c \<noteq> CHR ''}'') (rev line)"
  from assms have mem: "CHR ''}'' \<in> set line" and e: "e = rev (tl bk)"
    by (auto simp add: capture_group_def Let_def line_def bk_def split: if_splits)
  from mem have "bk \<noteq> []"
    by (simp add: bk_def)
  moreover have "bk \<noteq> [] \<Longrightarrow> hd bk = CHR ''}''"
    unfolding bk_def using hd_dropWhile [of "\<lambda>c. c \<noteq> CHR ''}''" "rev line"] by simp
  ultimately have bk: "bk = CHR ''}'' # tl bk"
    by (cases bk) simp_all
  have "rev line = takeWhile (\<lambda>c. c \<noteq> CHR ''}'') (rev line) @ bk"
    by (simp add: bk_def)
  then have "line = rev bk @ rev (takeWhile (\<lambda>c. c \<noteq> CHR ''}'') (rev line))"
    by (metis rev_append rev_rev_ident)
  also have "rev bk = e @ ''}''"
    using bk e by (metis rev.simps(2))
  finally have "line = e @ ''}'' @ rev (takeWhile (\<lambda>c. c \<noteq> CHR ''}'') (rev line))"
    by simp
  moreover have "rest = line @ dropWhile (\<lambda>c. \<not> is_line_terminator c) rest"
    by (simp add: line_def)
  ultimately have "rest = e @ ''}'' @ (rev (takeWhile (\<lambda>c. c \<noteq> CHR ''}'') (rev line))
      @ dropWhile (\<lambda>c. \<not> is_line_terminator c) rest)"
    by (metis append.assoc)
  then show ?thesis by blast
qed

lemma regex_exec_Some:
  "regex_exec s = Some e \<Longrightarrow> \<exists>pre post. s = pre @ error_token @ e @ ''}'' @ post"
proof (induction s)
  case Nil
  then show ?case by simp
next
  case (Cons c cs)
  show ?case
  proof (cases "prefix error_token (c # cs) \<and>
      capture_group (drop (length error_token) (c # cs)) \<noteq> None")
    case True
    then obtain g where g: "capture_group (drop (length error_token) (c # cs)) = Some g"
      by blast
    with True Cons.prems have "g = e" by simp
    from True obtain rest where rest: "c # cs = error_token @ rest"
      by (auto simp add: prefix_def)
    then have "drop (length error_token) (c # cs) = rest" by simp
    with g \<open>g = e\<close> obtain post where "rest = e @ ''}'' @ post"
      using capture_group_Some by blast
    with rest have "c # cs = [] @ error_token @ e @ ''}'' @ post" by simp
    then show ?thesis by blast
  next
    case False
    with Cons.prems have "regex_exec cs = Some e"
      by (auto split: if_splits option.splits)
    then obtain pre post where "cs = pre @ error_token @ e @ ''}'' @ post"
      using Cons.IH by blast
    then have "c # cs = (c # pre) @ error_token @ e @ ''}'' @ post" by simp
    then show ?thesis by blast
  qed
qed

text \<open>
  Claim C9, as the claim states it, fails for an envelope whose \<open>message\<close> is
  present but falsy: with an empty message \<open>parseError\<close> returns its whole input,
  not the message.
\<close>

theorem parseError_empty_message_returns_input:
  \<open>regex_exec ''{"error":{"message":""}}'' = Some ''{"message":""}'' \<and>
   JSON_parse_sample ''{"message":""}'' = Inr (JObject [(''message'', JString '''')]) \<and>
   parseError JSON_parse_sample ''{"error":{"message":""}}''
     = JString ''{"error":{"message":""}}'' \<and>
   parseError JSON_parse_sample ''{"error":{"message":""}}'' \<noteq> JString ''''\<close>
  by (simp add: parseError_def parseError_try_def JSON_parse_sample_def error_token_def
      capture_group_def is_line_terminator_def)

text \<open>
  Claim C9, amended. \<open>parseError\<close> has two outcomes on every input and never
  throws. If the expression matches, the captured text parses to an object, and that
  object has a truthy \<open>message\<close>, the result is that message. In every other case
  (no match, a parse failure, a parsed value that is \<open>null\<close> or has no
  \<open>message\<close>, a falsy \<open>message\<close>) the result is the input unchanged; this
  covers every exception raised inside the \<open>try\<close> block. A result other than the
  input occurs only when the input contains the token, some text, and a closing brace.
\<close>

theorem parseError_structured_or_raw:
  "(\<forall>e kvs message.
      regex_exec error = Some e \<and> JSON_parse e = Inr (JObject kvs) \<and>
      map_of kvs ''message'' = Some message \<and> truthy message
      \<longrightarrow> parseError JSON_parse error = message) \<and>
   ((\<nexists>e kvs message.
      regex_exec error = Some e \<and> JSON_parse e = Inr (JObject kvs) \<and>
      map_of kvs ''message'' = Some message \<and> truthy message)
      \<longrightarrow> parseError JSON_parse error = JString error) \<and>
   (\<forall>x. parseError_try JSON_parse error = Inl x
      \<longrightarrow> parseError JSON_parse error = JString error) \<and>
   (parseError JSON_parse error \<noteq> JString error
      \<longrightarrow> (\<exists>pre e post. error = pre @ error_token @ e @ ''}'' @ post))"
proof (intro conjI allI impI)
  fix e kvs message
  assume "regex_exec error = Some e \<and> JSON_parse e = Inr (JObject kvs) \<and>
      map_of kvs ''message'' = Some message \<and> truthy message"
  then show "parseError JSON_parse error = message"
    by (simp add: parseError_def parseError_try_def)
next
  assume none: "\<nexists>e kvs message.
      regex_exec error = Some e \<and> JSON_parse e = Inr (JObject kvs) \<and>
      map_of kvs ''message'' = Some message \<and> truthy message"
  show "parseError JSON_parse error = JString error"
  proof (cases "regex_exec error")
    case None
    then show ?thesis by (simp add: parseError_def parseError_try_def)
  next
    case (Some e)
    show ?thesis
    proof (cases "JSON_parse e")
      case (Inl x)
      with Some show ?thesis by (simp add: parseError_def parseError_try_def)
    next
      case (Inr err)
      show ?thesis
      proof (cases err)
        case (JObject kvs)
        with none Some Inr have "\<And>m. map_of kvs ''message'' = Some m \<Longrightarrow> \<not> truthy m"
          by blast
        with Some Inr JObject show ?thesis
          by (cases "map_of kvs ''message''") (simp_all add: parseError_def parseError_try_def)
      qed (use Some Inr in \<open>simp_all add: parseError_def parseError_try_def\<close>)
    qed
  qed
next
  fix x
  assume "parseError_try JSON_parse error = Inl x"
  then show "parseError JSON_parse error = JString error"
    by (simp add: parseError_def)
next
  assume ne: "parseError JSON_parse error \<noteq> JString error"
  then obtain e where "regex_exec error = Some e"
    by (cases "regex_exec error") (simp_all add: parseError_def parseError_try_def)
  then show "\<exists>pre e post. error = pre @ error_token @ e @ ''}'' @ post"
    using regex_exec_Some by blast
qed

text \<open>An error envelope inside a longer message, a plain message, and a broken envelope.\<close>

theorem parseError_structured_or_raw_witness:
  \<open>parseError JSON_parse_sample
      ''got status: 429 . {"error":{"message":"quota exceeded","code":429}}''
     = JString ''quota exceeded'' \<and>
   parseError JSON_parse_sample ''Failed to fetch'' = JString ''Failed to fetch'' \<and>
   parseError JSON_parse_sample ''{"error":nope}'' = JString ''{"error":nope}''\<close>
proof -
  have r: \<open>regex_exec ''got status: 429 . {"error":{"message":"quota exceeded","code":429}}''
      = Some ''{"message":"quota exceeded","code":429}''\<close>
    by (simp add: error_token_def capture_group_def is_line_terminator_def)
  have \<open>parseError JSON_parse_sample
      ''got status: 429 . {"error":{"message":"quota exceeded","code":429}}''
     = JString ''quota exceeded''\<close>
    using parseError_structured_or_raw [of
        \<open>''got status: 429 . {"error":{"message":"quota exceeded","code":429}}''\<close>
        JSON_parse_sample] r
    by (simp add: JSON_parse_sample_def)
  moreover have \<open>parseError JSON_parse_sample ''Failed to fetch'' = JString ''Failed to fetch''\<close>
    using parseError_structured_or_raw [of \<open>''Failed to fetch''\<close> JSON_parse_sample]
    by (simp add: error_token_def)
  moreover have \<open>parseError JSON_parse_sample ''{"error":nope}'' = JString ''{"error":nope}''\<close>
    using parseError_structured_or_raw [of \<open>''{"error":nope}''\<close> JSON_parse_sample]
    by (simp add: error_token_def capture_group_def is_line_terminator_def
        JSON_parse_sample_def)
  ultimately show ?thesis by simp
qed

section \<open>Properties of \<open>handleSubmit\<close>\<close>

lemma handleSubmit_unmounted: "canvasRef s = None \<Longrightarrow> handleSubmit r s = s"
  by (simp add: handleSubmit_def)

lemma handleSubmit_no_image:
  assumes "canvasRef s = Some canvas" and "imageData_of (Responded parts) = None"
  shows "handleSubmit (Responded parts) s = render_commit (s\<lparr>isLoading := False\<rparr>)"
  using assms by (simp add: handleSubmit_def)

lemma handleSubmit_threw_key:
  assumes "canvasRef s = Some canvas"
    and "includes_str (case message of None \<Rightarrow> [] | Some m \<Rightarrow> m)
           ''Requested entity was not found''"
  shows "handleSubmit (Threw message) s =
           s\<lparr>isLoading := False, hasKey := Some False,
             errorMessage := ''Sesi kunci API tamat atau tidak sah.'',
             showErrorModal := True, canvasRef := None\<rparr>"
  using assms by (simp add: handleSubmit_def render_commit_def)

lemma handleSubmit_threw_other:
  assumes "canvasRef s = Some canvas"
    and "\<not> includes_str (case message of None \<Rightarrow> [] | Some m \<Rightarrow> m)
           ''Requested entity was not found''"
  shows "handleSubmit (Threw message) s =
           render_commit (s\<lparr>isLoading := False,
             errorMessage := (case message of
                                None \<Rightarrow> ''Ralat tidak dijangka berlaku.''
                              | Some m \<Rightarrow> if m \<noteq> [] then m
                                          else ''Ralat tidak dijangka berlaku.''),
             showErrorModal := True\<rparr>)"
  using assms by (cases message) (simp_all add: handleSubmit_def render_commit_def)

lemma key_error_iff:
  "key_error (Threw message) \<longleftrightarrow>
     includes_str (case message of None \<Rightarrow> [] | Some m \<Rightarrow> m) ''Requested entity was not found''"
  by (cases message) simp_all

text \<open>
  Claim C8, as the claim states it, fails when the generation call throws with a message
  containing \<open>Requested entity was not found\<close>: \<open>handleSubmit\<close> then resets
  \<open>hasKey\<close>, which is neither error display nor loading state, the render that
  follows shows the key screen, and the canvas with the sketch is unmounted.
\<close>

theorem handleSubmit_key_error_drops_canvas:
  "imageData_of (Threw (Some ''Requested entity was not found.'')) = None \<and>
   canvasRef drawing_editor = Some \<lparr>node = 0, pixels = ''sketch'', ctx2d = True\<rparr> \<and>
   hasKey drawing_editor = Some True \<and>
   canvasRef (handleSubmit (Threw (Some ''Requested entity was not found.'')) drawing_editor)
     = None \<and>
   hasKey (handleSubmit (Threw (Some ''Requested entity was not found.'')) drawing_editor)
     = Some False"
  by (simp add: handleSubmit_def render_commit_def imageData_of_def drawing_editor_def)

text \<open>
  Claim C8, amended. When the generation call throws or returns no image payload,
  \<open>handleSubmit\<close> leaves \<open>undoStack\<close> and \<open>redoStack\<close> unchanged. If the
  failure is not the key error (a thrown message containing
  \<open>Requested entity was not found\<close>) and the editor is shown (\<open>hasKey\<close> is not
  false), it also leaves the canvas unchanged and changes nothing but \<open>isLoading\<close>,
  \<open>showErrorModal\<close> and \<open>errorMessage\<close>, so the user can retry without losing
  work. On the key error, with a canvas mounted, it resets \<open>hasKey\<close> to false.
\<close>

theorem handleSubmit_failure_frame:
  assumes "imageData_of r = None"
  shows "undoStack (handleSubmit r s) = undoStack s \<and>
         redoStack (handleSubmit r s) = redoStack s \<and>
         (\<not> key_error r \<and> hasKey s \<noteq> Some False \<longrightarrow>
            canvasRef (handleSubmit r s) = canvasRef s \<and>
            handleSubmit r s =
              s\<lparr>isLoading := isLoading (handleSubmit r s),
                showErrorModal := showErrorModal (handleSubmit r s),
                errorMessage := errorMessage (handleSubmit r s)\<rparr>) \<and>
         (key_error r \<and> canvasRef s \<noteq> None \<longrightarrow> hasKey (handleSubmit r s) = Some False)"
proof (cases "canvasRef s")
  case None
  then show ?thesis by (simp add: handleSubmit_unmounted)
next
  case (Some canvas)
  show ?thesis
  proof (cases r)
    case (Responded parts)
    have eq: "handleSubmit r s = render_commit (s\<lparr>isLoading := False\<rparr>)"
      unfolding Responded
      using assms Responded by (intro handleSubmit_no_image [OF Some]) simp
    show ?thesis
      unfolding eq using Responded by (simp add: render_commit_def)
  next
    case (Threw message)
    show ?thesis
    proof (cases "key_error r")
      case True
      then have inc: "includes_str (case message of None \<Rightarrow> [] | Some m \<Rightarrow> m)
           ''Requested entity was not found''"
        using Threw by (simp add: key_error_iff)
      have eq: "handleSubmit r s =
           s\<lparr>isLoading := False, hasKey := Some False,
             errorMessage := ''Sesi kunci API tamat atau tidak sah.'',
             showErrorModal := True, canvasRef := None\<rparr>"
        unfolding Threw by (rule handleSubmit_threw_key [OF Some inc])
      show ?thesis
        unfolding eq using True by simp
    next
      case False
      then have inc: "\<not> includes_str (case message of None \<Rightarrow> [] | Some m \<Rightarrow> m)
           ''Requested entity was not found''"
        using Threw by (simp add: key_error_iff)
      have eq: "handleSubmit r s =
           render_commit (s\<lparr>isLoading := False,
             errorMessage := (case message of
                                None \<Rightarrow> ''Ralat tidak dijangka berlaku.''
                              | Some m \<Rightarrow> if m \<noteq> [] then m
                                          else ''Ralat tidak dijangka berlaku.''),
             showErrorModal := True\<rparr>)"
        unfolding Threw by (rule handleSubmit_threw_other [OF Some inc])
      show ?thesis
        unfolding eq using False by (simp add: render_commit_def)
    qed
  qed
qed

text \<open>A network failure, a response without image data, an expired key, and a success.\<close>

theorem handleSubmit_failure_frame_witness:
  "handleSubmit (Threw (Some ''Failed to fetch'')) drawing_editor =
     drawing_editor\<lparr>showErrorModal := True, errorMessage := ''Failed to fetch''\<rparr> \<and>
   handleSubmit (Responded (Some [None, Some None])) drawing_editor = drawing_editor \<and>
   undoStack (handleSubmit (Threw (Some ''Requested entity was not found.'')) drawing_editor)
     = [''blank''] \<and>
   hasKey (handleSubmit (Threw (Some ''Requested entity was not found.'')) drawing_editor)
     = Some False \<and>
   generatedImage (handleSubmit (Responded (Some [None, Some (Some ''iVBOR'')])) drawing_editor)
     = Some ''data:image/png;base64,iVBOR''"
  using handleSubmit_failure_frame [of "Threw (Some ''Failed to fetch'')" drawing_editor]
    handleSubmit_failure_frame [of "Responded (Some [None, Some None])" drawing_editor]
    handleSubmit_failure_frame [of "Threw (Some ''Requested entity was not found.'')"
      drawing_editor]
  by (simp add: handleSubmit_def render_commit_def imageData_of_def drawing_editor_def)

end
